theory Spec2Isabelle
  imports Complex_Main "HOL-Library.Finite_Map"
begin

section \<open>Data model\<close>

text \<open>
  The values the integration handles are what a YAML document or a service response
  holds: \<open>None\<close>, booleans, integers, floats, strings, lists and dictionaries with
  string keys. A Python float is a finite real, an infinity or a NaN. A dictionary is a
  finite map; its insertion order plays no role in any lookup of the code.
\<close>

datatype py_float = Finite real | PosInf | NegInf | NaN

datatype py_value =
    VNone
  | VBool bool
  | VInt int
  | VFloat py_float
  | VStr string
  | VList "py_value list"
  | VDict "(string, py_value) fmap"

text \<open>The exceptions that the operations used by the code can raise.\<close>

datatype py_exn = IndexError | ValueError | TypeError | AttributeError

subsection \<open>Python built-ins used by the code\<close>

text \<open>
  \<open>str.strip()\<close> removes the characters for which \<open>str.isspace\<close> holds; among the
  code points below 256 these are 9 to 13, 28 to 32, 133 and 160.
\<close>

definition isspace :: "char \<Rightarrow> bool" where
  "isspace c =
     (let n = (of_char c :: nat)
      in (9 \<le> n \<and> n \<le> 13) \<or> (28 \<le> n \<and> n \<le> 32) \<or> n = 133 \<or> n = 160)"

definition strip :: "string \<Rightarrow> string" where
  "strip s = rev (dropWhile isspace (rev (dropWhile isspace s)))"

text \<open>
  \<open>int(s)\<close> for a string: blanks around the literal are dropped (here the code points
  9 to 13, 32, 133 and 160), then an optional sign, then decimal digits in which single
  underscores may separate digits. More than 4300 digits, or any other shape, raise
  \<open>ValueError\<close>, which is \<open>None\<close> here: both call sites catch it at once.
\<close>

definition int_space :: "char \<Rightarrow> bool" where
  "int_space c =
     (let n = (of_char c :: nat)
      in (9 \<le> n \<and> n \<le> 13) \<or> n = 32 \<or> n = 133 \<or> n = 160)"

definition is_digit :: "char \<Rightarrow> bool" where
  "is_digit c = (let n = (of_char c :: nat) in 48 \<le> n \<and> n \<le> 57)"

definition digit_val :: "char \<Rightarrow> int" where
  "digit_val c = int (of_char c) - 48"

fun digits_ok :: "string \<Rightarrow> bool" where
  "digits_ok [] = False"
| "digits_ok [c] = is_digit c"
| "digits_ok (c # d # cs) =
     (if is_digit c then
        (if d = CHR ''_'' then digits_ok cs else digits_ok (d # cs))
      else False)"

definition digits_value :: "string \<Rightarrow> int" where
  "digits_value s = foldl (\<lambda>acc c. 10 * acc + digit_val c) 0 (filter is_digit s)"

definition py_int :: "string \<Rightarrow> int option" where
  "py_int s =
     (let t = rev (dropWhile int_space (rev (dropWhile int_space s)));
          neg = (t \<noteq> [] \<and> hd t = CHR ''-'');
          body = (if t \<noteq> [] \<and> (hd t = CHR ''-'' \<or> hd t = CHR ''+'') then tl t else t)
      in if digits_ok body \<and> length (filter is_digit body) \<le> 4300
         then Some (if neg then - digits_value body else digits_value body)
         else None)"

text \<open>
  \<open>xs[i]\<close> on a list: a negative index counts from the end, and an index outside
  \<open>-len(xs) .. len(xs) - 1\<close> raises \<open>IndexError\<close>.
\<close>

definition getitem :: "'a list \<Rightarrow> int \<Rightarrow> py_exn + 'a" where
  "getitem xs i =
     (let n = int (length xs)
      in if 0 \<le> i \<and> i < n then Inr (xs ! nat i)
         else if - n \<le> i \<and> i < 0 then Inr (xs ! nat (n + i))
         else Inl IndexError)"

text \<open>\<open>d.get(key)\<close>: the value stored under the key, \<open>None\<close> when the key is absent.\<close>

definition dict_get :: "(string, py_value) fmap \<Rightarrow> string \<Rightarrow> py_value" where
  "dict_get d k = (case fmlookup d k of None \<Rightarrow> VNone | Some v \<Rightarrow> v)"

text \<open>\<open>s.find(c, pos)\<close>: the first index at or after \<open>pos\<close> holding \<open>c\<close>; \<open>None\<close> is -1.\<close>

definition find_char :: "char \<Rightarrow> string \<Rightarrow> nat \<Rightarrow> nat option" where
  "find_char c s pos =
     (let r = dropWhile (\<lambda>x. x \<noteq> c) (drop pos s)
      in if r = [] then None else Some (length s - length r))"

text \<open>Truth value of a Python object, as \<open>not x\<close> and \<open>x or y\<close> test it.\<close>

fun truthy :: "py_value \<Rightarrow> bool" where
  "truthy VNone = False"
| "truthy (VBool b) = b"
| "truthy (VInt i) = (i \<noteq> 0)"
| "truthy (VFloat (Finite r)) = (r \<noteq> 0)"
| "truthy (VFloat _) = True"
| "truthy (VStr s) = (s \<noteq> [])"
| "truthy (VList xs) = (xs \<noteq> [])"
| "truthy (VDict d) = (d \<noteq> fmempty)"

section \<open>Path evaluation: \<open>extract_data_at_path\<close> (action_result/utils.py)\<close>

text \<open>
  One iteration of the \<open>while\<close> loop that is not the skipping of a dot either returns
  from the function (\<open>Return\<close>), leaves the loop (\<open>Break\<close>), or assigns \<open>current\<close> and
  \<open>pos\<close> (\<open>Step\<close>); the test \<open>if current is None: return None\<close> that ends both
  branches of the source is made once, in \<open>walk\<close>.
\<close>

datatype step = Return "py_exn + py_value" | Break | Step py_value nat

text \<open>Bracket content between a pair of double or of single quotes.\<close>

definition quoted :: "string \<Rightarrow> bool" where
  "quoted bc =
     (bc \<noteq> [] \<and>
      ((hd bc = CHR 0x22 \<and> last bc = CHR 0x22) \<or> (hd bc = CHR 0x27 \<and> last bc = CHR 0x27)))"

text \<open>
  The test \<open>-len(current) <= index < len(current)\<close> followed by \<open>current[index]\<close>; the
  subscript is the raising one, so that the guard is what keeps it from raising.
\<close>

definition index_step :: "py_value list \<Rightarrow> int \<Rightarrow> nat \<Rightarrow> step" where
  "index_step xs index pos' =
     (if - int (length xs) \<le> index \<and> index < int (length xs)
      then (case getitem xs index of Inl e \<Rightarrow> Return (Inl e) | Inr v \<Rightarrow> Step v pos')
      else Return (Inr VNone))"

text \<open>The branch \<open>if path[pos] == "["\<close>.\<close>

definition bracket_step :: "py_value \<Rightarrow> string \<Rightarrow> nat \<Rightarrow> step" where
  "bracket_step current path pos =
     (case find_char (CHR '']'') path pos of
        None \<Rightarrow> Return (Inr VNone)
      | Some end_bracket \<Rightarrow>
          (let bracket_content = take (end_bracket - (pos + 1)) (drop (pos + 1) path)
           in if quoted bracket_content then
                (case current of
                   VDict d \<Rightarrow> Step (dict_get d (butlast (tl bracket_content))) (end_bracket + 1)
                 | _ \<Rightarrow> Return (Inr VNone))
              else
                (case py_int bracket_content of
                   None \<Rightarrow> Return (Inr VNone)
                 | Some index \<Rightarrow>
                     (case current of
                        VList xs \<Rightarrow> index_step xs index (end_bracket + 1)
                      | _ \<Rightarrow> Return (Inr VNone)))))"

text \<open>
  The \<open>else\<close> branch: the key is the longest run of characters other than a dot and the
  two brackets, as the regular expression \<open>([^.\[\]]+)\<close> matches it at \<open>pos\<close>.
\<close>

definition token_step :: "py_value \<Rightarrow> string \<Rightarrow> nat \<Rightarrow> step" where
  "token_step current path pos =
     (let key = takeWhile (\<lambda>c. c \<noteq> CHR ''.'' \<and> c \<noteq> CHR ''['' \<and> c \<noteq> CHR '']'') (drop pos path)
      in if key = [] then Break
         else
           (case current of
              VList xs \<Rightarrow>
                (case py_int key of
                   None \<Rightarrow> Return (Inr VNone)
                 | Some index \<Rightarrow> index_step xs index (pos + length key))
            | VDict d \<Rightarrow> Step (dict_get d key) (pos + length key)
            | _ \<Rightarrow> Return (Inr VNone)))"

definition path_step :: "py_value \<Rightarrow> string \<Rightarrow> nat \<Rightarrow> step" where
  "path_step current path pos =
     (if path ! pos = CHR ''['' then bracket_step current path pos
      else token_step current path pos)"

text \<open>The \<open>while pos < len(path)\<close> loop.\<close>

function walk :: "py_value \<Rightarrow> string \<Rightarrow> nat \<Rightarrow> py_exn + py_value" where
  "walk current path pos =
     (if pos < length path then
        (if path ! pos = CHR ''.'' then walk current path (pos + 1)
         else
           (case path_step current path pos of
              Return r \<Rightarrow> r
            | Break \<Rightarrow> Inr current
            | Step v p \<Rightarrow> if v = VNone then Inr VNone else walk v path p))
      else Inr current)"
  by pat_completeness auto
termination
proof (relation "measure (\<lambda>(current, path, pos). length path - pos)")
  show "wf (measure (\<lambda>(current, path, pos). length path - pos))" by simp
next
  fix current :: py_value and path :: string and pos :: nat
  assume "pos < length path"
  then show "((current, path, pos + 1), (current, path, pos))
      \<in> measure (\<lambda>(current, path, pos). length path - pos)"
    by simp
next
  fix current :: py_value and path :: string and pos :: nat and v :: py_value and p :: nat
  assume lt: "pos < length path" and st: "path_step current path pos = Step v p"
  have ix: "\<And>xs i q. index_step xs i q = Step v p \<Longrightarrow> p = q"
    by (auto simp: index_step_def split: if_splits sum.splits)
  have "pos < p"
  proof (cases "path ! pos = CHR ''[''")
    case True
    with st have b: "bracket_step current path pos = Step v p" by (simp add: path_step_def)
    then obtain e where e: "find_char (CHR '']'') path pos = Some e"
      by (auto simp: bracket_step_def split: option.splits)
    let ?r = "dropWhile (\<lambda>x. x \<noteq> CHR '']'') (drop pos path)"
    from e have ne: "?r \<noteq> []" and ee: "e = length path - length ?r"
      by (auto simp: find_char_def Let_def split: if_splits)
    have "length ?r \<le> length (drop pos path)" by (rule length_dropWhile_le)
    then have "length ?r \<le> length path - pos" by simp
    moreover from ne have "0 < length ?r" by simp
    ultimately have pe: "pos \<le> e" using ee by arith
    from b e have "p = e + 1"
      by (auto simp: bracket_step_def Let_def
          split: if_splits option.splits py_value.splits dest: ix)
    with pe show ?thesis by simp
  next
    case False
    with st have b: "token_step current path pos = Step v p" by (simp add: path_step_def)
    let ?key = "takeWhile (\<lambda>c. c \<noteq> CHR ''.'' \<and> c \<noteq> CHR ''['' \<and> c \<noteq> CHR '']'') (drop pos path)"
    from b have ne: "?key \<noteq> []" by (auto simp: token_step_def Let_def split: if_splits)
    from b ne have "p = pos + length ?key"
      by (auto simp: token_step_def Let_def
          split: if_splits option.splits py_value.splits dest: ix)
    with ne show ?thesis by simp
  qed
  with lt show "((v, path, p), (current, path, pos))
      \<in> measure (\<lambda>(current, path, pos). length path - pos)"
    by simp
qed

declare walk.simps [simp del]

definition extract_data_at_path :: "py_value \<Rightarrow> string option \<Rightarrow> py_exn + py_value" where
  "extract_data_at_path data path =
     (case path of
        None \<Rightarrow> Inr data
      | Some p \<Rightarrow> if strip p = [] then Inr data else walk data (strip p) 0)"

section \<open>Value classification: \<open>detect_value_type_and_suggestions\<close> (action_result/helpers.py)\<close>

text \<open>
  Modelled from the spec: the constants \<open>VALUE_TYPE_BOOLEAN\<close>, \<open>VALUE_TYPE_NUMBER\<close>,
  \<open>VALUE_TYPE_STRING\<close> and \<open>VALUE_TYPE_TIMESTAMP\<close> of action_result/const.py, a file that
  is not part of the sources at hand. The specification gives the value kind as an
  enumeration of four distinct members (Boolean, Number, Text, Timestamp).
\<close>

datatype value_type =
  VALUE_TYPE_BOOLEAN | VALUE_TYPE_NUMBER | VALUE_TYPE_STRING | VALUE_TYPE_TIMESTAMP

record suggestions =
  value_type :: value_type
  unit_of_measurement :: string
  device_class :: string

text \<open>
  \<open>isinstance\<close> as Python decides it: \<open>bool\<close> is a subclass of \<open>int\<close>, so a boolean
  passes the test for \<open>int | float\<close> as well.
\<close>

fun isinstance_bool :: "py_value \<Rightarrow> bool" where
  "isinstance_bool (VBool b) = True"
| "isinstance_bool v = False"

fun isinstance_int_float :: "py_value \<Rightarrow> bool" where
  "isinstance_int_float (VBool b) = True"
| "isinstance_int_float (VInt i) = True"
| "isinstance_int_float (VFloat f) = True"
| "isinstance_int_float v = False"

fun isinstance_dict :: "py_value \<Rightarrow> bool" where
  "isinstance_dict (VDict d) = True"
| "isinstance_dict v = False"

text \<open>
  \<open>re.match\<close> of a pattern that is a sequence of single-character classes: the string
  starts with one character of each class, in order.
\<close>

fun match_classes :: "(char \<Rightarrow> bool) list \<Rightarrow> string \<Rightarrow> bool" where
  "match_classes [] s = True"
| "match_classes (p # ps) [] = False"
| "match_classes (p # ps) (c # cs) = (p c \<and> match_classes ps cs)"

text \<open>The pattern \<open>^\d{4}-\d{2}-\d{2}[T ]\d{2}:\d{2}:\d{2}\<close>.\<close>

definition iso_pattern :: "(char \<Rightarrow> bool) list" where
  "iso_pattern =
     [is_digit, is_digit, is_digit, is_digit, (\<lambda>c. c = CHR ''-''),
      is_digit, is_digit, (\<lambda>c. c = CHR ''-''),
      is_digit, is_digit, (\<lambda>c. c = CHR ''T'' \<or> c = CHR '' ''),
      is_digit, is_digit, (\<lambda>c. c = CHR '':''),
      is_digit, is_digit, (\<lambda>c. c = CHR '':''),
      is_digit, is_digit]"

definition detect_value_type_and_suggestions :: "py_value \<Rightarrow> suggestions" where
  "detect_value_type_and_suggestions v =
     (let suggestions =
            \<lparr>value_type = VALUE_TYPE_STRING, unit_of_measurement = [], device_class = []\<rparr>
      in if v = VNone then suggestions
         else if isinstance_bool v then suggestions\<lparr>value_type := VALUE_TYPE_BOOLEAN\<rparr>
         else if isinstance_int_float v then suggestions\<lparr>value_type := VALUE_TYPE_NUMBER\<rparr>
         else
           (case v of
              VStr s \<Rightarrow>
                if match_classes iso_pattern s
                then suggestions\<lparr>value_type := VALUE_TYPE_TIMESTAMP, device_class := ''timestamp''\<rparr>
                else suggestions
            | _ \<Rightarrow> suggestions))"

section \<open>Service YAML: validators/yaml_validator.py\<close>

text \<open>
  The YAML library is outside the repository. \<open>yaml.safe_load\<close> is a parameter
  \<open>safe_load\<close> that returns the loaded value or raises \<open>yaml.YAMLError\<close>, and
  \<open>yaml.dump(data, default_flow_style=False, allow_unicode=True)\<close> is a parameter
  \<open>dump\<close>.
\<close>

datatype yaml_error = YAMLError

type_synonym service_yaml =
  "(string, py_value) fmap option \<times> py_value \<times> py_value \<times> string option"

definition validate_service_yaml ::
  "(string \<Rightarrow> yaml_error + py_value) \<Rightarrow> string \<Rightarrow> bool \<times> string option" where
  "validate_service_yaml safe_load yaml_string =
     (if yaml_string = [] \<or> strip yaml_string = [] then (True, None)
      else
        (case safe_load yaml_string of
           Inl e \<Rightarrow> (False, Some ''yaml_parse_error'')
         | Inr parsed \<Rightarrow>
             if parsed \<noteq> VNone \<and> \<not> isinstance_dict parsed then (False, Some ''yaml_not_dict'')
             else (True, None)))"

text \<open>\<open>a or b\<close>: the first operand when it is true, the second otherwise.\<close>

definition py_or :: "py_value \<Rightarrow> py_value \<Rightarrow> py_value" where
  "py_or a b = (if truthy a then a else b)"

text \<open>
  \<open>if "entry_id" in cleaned_data: entry_id = cleaned_data.pop("entry_id")\<close>, on the copy
  \<open>cleaned_data\<close>: the copy without the key, and the value that was stored under it.
\<close>

definition pop_entry_id :: "(string, py_value) fmap \<Rightarrow> (string, py_value) fmap \<times> py_value" where
  "pop_entry_id cleaned_data =
     (case fmlookup cleaned_data ''entry_id'' of
        None \<Rightarrow> (cleaned_data, VNone)
      | Some v \<Rightarrow> (fmdrop ''entry_id'' cleaned_data, v))"

text \<open>
  \<open>parse_service_yaml\<close> from the line \<open>if parsed is None\<close> on, that is once
  \<open>yaml.safe_load\<close> has returned \<open>parsed\<close>. The result is the tuple
  \<open>(cleaned_data, action, entry_id, error_key)\<close>.
\<close>

definition split_parsed :: "py_value \<Rightarrow> service_yaml" where
  "split_parsed parsed =
     (case parsed of
        VNone \<Rightarrow> (Some fmempty, VNone, VNone, None)
      | VDict m \<Rightarrow>
          if ''action'' |\<in>| fmdom m \<or> ''service'' |\<in>| fmdom m then
            (let action = py_or (dict_get m ''action'') (dict_get m ''service'');
                 data_section =
                   (case fmlookup m ''data'' of None \<Rightarrow> VDict fmempty | Some v \<Rightarrow> v)
             in case data_section of
                  VDict d \<Rightarrow>
                    (let (cleaned_data, entry_id) = pop_entry_id d
                     in (Some cleaned_data, action, entry_id, None))
                | _ \<Rightarrow> (None, action, VNone, Some ''yaml_not_dict''))
          else
            (let (cleaned_data, entry_id) = pop_entry_id m
             in (Some cleaned_data, VNone, entry_id, None))
      | _ \<Rightarrow> (None, VNone, VNone, Some ''yaml_not_dict''))"

definition parse_service_yaml ::
  "(string \<Rightarrow> yaml_error + py_value) \<Rightarrow> string \<Rightarrow> service_yaml" where
  "parse_service_yaml safe_load yaml_string =
     (if yaml_string = [] \<or> strip yaml_string = [] then (Some fmempty, VNone, VNone, None)
      else
        (case safe_load yaml_string of
           Inl e \<Rightarrow> (None, VNone, VNone, Some ''yaml_parse_error'')
         | Inr parsed \<Rightarrow> split_parsed parsed))"


section \<open>Action selector: \<open>_extract_action_from_selector\<close> (config_flow.py)\<close>

text \<open>
  \<open>"." in action\<close>: a substring test on a string, a membership test on a list, a key
  test on a dictionary, and \<open>TypeError\<close> on the values that are not iterable.
\<close>

fun contains_dot :: "py_value \<Rightarrow> py_exn + bool" where
  "contains_dot (VStr s) = Inr (CHR ''.'' \<in> set s)"
| "contains_dot (VList xs) = Inr (VStr ''.'' \<in> set xs)"
| "contains_dot (VDict d) = Inr (''.'' |\<in>| fmdom d)"
| "contains_dot v = Inl TypeError"

text \<open>\<open>s.split(".", 1)\<close>: one part when there is no dot, else the parts around the first.\<close>

definition split_dot :: "string \<Rightarrow> string list" where
  "split_dot s =
     (case dropWhile (\<lambda>c. c \<noteq> CHR ''.'') s of
        [] \<Rightarrow> [s]
      | c # rest \<Rightarrow> [takeWhile (\<lambda>c. c \<noteq> CHR ''.'') s, rest])"

definition extract_action_from_selector ::
  "(string, py_value) fmap option \<Rightarrow> py_exn + (string \<times> string) option" where
  "extract_action_from_selector action_data =
     (case action_data of
        None \<Rightarrow> Inr None
      | Some d \<Rightarrow>
          if d = fmempty then Inr None
          else
            (let action = (case fmlookup d ''action'' of None \<Rightarrow> VStr [] | Some v \<Rightarrow> v)
             in if \<not> truthy action then Inr None
                else
                  (case contains_dot action of
                     Inl e \<Rightarrow> Inl e
                   | Inr False \<Rightarrow> Inr None
                   | Inr True \<Rightarrow>
                       (case action of
                          VStr s \<Rightarrow>
                            (let parts = split_dot s
                             in case getitem parts 0 of
                                  Inl e \<Rightarrow> Inl e
                                | Inr domain \<Rightarrow>
                                    (case getitem parts 1 of
                                       Inl e \<Rightarrow> Inl e
                                     | Inr service_name \<Rightarrow> Inr (Some (domain, service_name))))
                        | _ \<Rightarrow> Inl AttributeError))))"

text \<open>The components of the tuple that \<open>parse_service_yaml\<close> returns.\<close>

definition cleaned_data :: "service_yaml \<Rightarrow> (string, py_value) fmap option" where
  "cleaned_data r = fst r"

definition action :: "service_yaml \<Rightarrow> py_value" where
  "action r = fst (snd r)"

definition entry_id :: "service_yaml \<Rightarrow> py_value" where
  "entry_id r = fst (snd (snd r))"

definition error_key :: "service_yaml \<Rightarrow> string option" where
  "error_key r = snd (snd (snd r))"

section \<open>Properties of the path evaluation\<close>

lemma index_step_no_raise: "index_step xs i p \<noteq> Return (Inl e)"
  by (auto simp: index_step_def getitem_def Let_def)

lemma path_step_no_raise: "path_step current path pos \<noteq> Return (Inl e)"
  by (auto simp: path_step_def bracket_step_def token_step_def Let_def index_step_no_raise
      split: option.splits py_value.splits)

lemma walk_returns: "\<exists>v. walk current path pos = Inr v"
proof (induction current path pos rule: walk.induct)
  case (1 current path pos)
  show ?case
  proof (cases "pos < length path")
    case False
    then show ?thesis by (simp add: walk.simps)
  next
    case lt: True
    show ?thesis
    proof (cases "path ! pos = CHR ''.''")
      case True
      with lt "1.IH"(1) show ?thesis by (simp add: walk.simps)
    next
      case nd: False
      show ?thesis
      proof (cases "path_step current path pos")
        case (Return r)
        with path_step_no_raise [of current path pos] obtain v where "r = Inr v"
          by (cases r) auto
        with Return lt nd show ?thesis by (simp add: walk.simps)
      next
        case Break
        with lt nd show ?thesis by (simp add: walk.simps)
      next
        case (Step v p)
        with lt nd "1.IH"(2) [of v p] show ?thesis
          by (cases "v = VNone") (simp_all add: walk.simps)
      qed
    qed
  qed
qed

text \<open>
  Two dictionaries on which \<open>get\<close> agrees for every key (a key bound to \<open>None\<close> in one
  may be missing in the other) take the same step.
\<close>

lemma step_agree:
  assumes "\<And>k. dict_get d1 k = dict_get d2 k"
  shows "(path_step (VDict d1) path pos = Break \<and> path_step (VDict d2) path pos = Break)
       \<or> path_step (VDict d1) path pos = path_step (VDict d2) path pos"
  using assms
  by (auto simp: path_step_def bracket_step_def token_step_def Let_def split: option.splits)

lemma walk_agree:
  assumes "\<And>k. dict_get d1 k = dict_get d2 k"
  shows "walk (VDict d1) path pos = walk (VDict d2) path pos
       \<or> (walk (VDict d1) path pos = Inr (VDict d1) \<and> walk (VDict d2) path pos = Inr (VDict d2))"
proof (induction "length path - pos" arbitrary: pos rule: less_induct)
  case less
  show ?case
  proof (cases "pos < length path")
    case False
    then show ?thesis by (simp add: walk.simps)
  next
    case lt: True
    show ?thesis
    proof (cases "path ! pos = CHR ''.''")
      case True
      from lt have "length path - (pos + 1) < length path - pos" by arith
      from less [OF this] True lt show ?thesis by (simp add: walk.simps [of _ path pos])
    next
      case nd: False
      from step_agree [OF assms, of path pos] show ?thesis
      proof
        assume "path_step (VDict d1) path pos = Break \<and> path_step (VDict d2) path pos = Break"
        with lt nd show ?thesis by (simp add: walk.simps [of _ path pos])
      next
        assume "path_step (VDict d1) path pos = path_step (VDict d2) path pos"
        with lt nd show ?thesis
          by (cases "path_step (VDict d2) path pos") (simp_all add: walk.simps [of _ path pos])
      qed
    qed
  qed
qed

lemma extract_agree:
  assumes "\<And>k. dict_get d1 k = dict_get d2 k"
  shows "extract_data_at_path (VDict d1) path = extract_data_at_path (VDict d2) path
       \<or> (extract_data_at_path (VDict d1) path = Inr (VDict d1)
          \<and> extract_data_at_path (VDict d2) path = Inr (VDict d2))"
proof (cases path)
  case None
  then show ?thesis by (simp add: extract_data_at_path_def)
next
  case (Some p)
  with walk_agree [OF assms, of "strip p" 0] show ?thesis
    by (simp add: extract_data_at_path_def)
qed

lemmas path_eval_defs =
  extract_data_at_path_def strip_def isspace_def walk.simps path_step_def bracket_step_def
  token_step_def find_char_def quoted_def dict_get_def

text \<open>
  Claim C5 (quoted key, never an index). For every dictionary \<open>m\<close> that binds the key
  \<open>"0"\<close> to \<open>x\<close>, the path \<open>["0"]\<close> evaluates to \<open>x\<close>: the quoted bracket content is a
  dictionary key although it looks like a number. The path \<open>[0]\<close> evaluates to \<open>None\<close>
  on the same dictionary, since an unquoted bracket content is a list index and the
  value is not a list. On a list the quoted form is never an index: it gives \<open>None\<close>.
\<close>

theorem quoted_key_never_index:
  assumes \<open>fmlookup m ''0'' = Some x\<close>
  shows \<open>extract_data_at_path (VDict m) (Some ''["0"]'') = Inr x
       \<and> extract_data_at_path (VDict m) (Some ''[0]'') = Inr VNone
       \<and> extract_data_at_path (VList xs) (Some ''["0"]'') = Inr VNone\<close>
proof -
  have a: \<open>extract_data_at_path (VDict m) (Some ''["0"]'') = Inr x\<close>
    using assms by (simp add: path_eval_defs)
  have b: \<open>extract_data_at_path (VDict m) (Some ''[0]'') = Inr VNone\<close>
    by (simp add: path_eval_defs split: option.splits)
  have c: \<open>extract_data_at_path (VList xs) (Some ''["0"]'') = Inr VNone\<close>
    by (simp add: path_eval_defs)
  from a b c show ?thesis by simp
qed

theorem quoted_key_never_index_witness:
  \<open>extract_data_at_path (VDict (fmupd ''0'' (VInt 5) fmempty)) (Some ''["0"]'') = Inr (VInt 5)
   \<and> extract_data_at_path (VDict (fmupd ''0'' (VInt 5) fmempty)) (Some ''[0]'') = Inr VNone
   \<and> extract_data_at_path (VList [VInt 7]) (Some ''["0"]'') = Inr VNone\<close>
proof -
  have h: \<open>fmlookup (fmupd ''0'' (VInt 5) fmempty) ''0'' = Some (VInt 5)\<close> by simp
  from quoted_key_never_index [OF h, of "[VInt 7]"] show ?thesis .
qed

text \<open>
  Claim C6 (null short-circuit). Whenever a step of the traversal assigns \<open>None\<close> to
  \<open>current\<close>, be it the last step of the path or not, the evaluation returns \<open>None\<close>
  at once, whatever the rest of the path is. For the root \<open>{"a": None}\<close> the path
  \<open>a.b\<close> gives \<open>None\<close>. A key bound to \<open>None\<close> cannot be told from a key that is
  missing: binding \<open>k\<close> to \<open>None\<close> and removing \<open>k\<close> give the same result for every
  path, except for a path that takes no step at all and hands back the root itself.
\<close>

theorem null_short_circuit:
  "(pos < length path \<longrightarrow> path ! pos \<noteq> CHR ''.'' \<longrightarrow> path_step current path pos = Step VNone p
      \<longrightarrow> walk current path pos = Inr VNone)
   \<and> extract_data_at_path (VDict (fmupd ''a'' VNone fmempty)) (Some ''a.b'') = Inr VNone
   \<and> (extract_data_at_path (VDict (fmupd k VNone d)) q = extract_data_at_path (VDict (fmdrop k d)) q
      \<or> (extract_data_at_path (VDict (fmupd k VNone d)) q = Inr (VDict (fmupd k VNone d))
         \<and> extract_data_at_path (VDict (fmdrop k d)) q = Inr (VDict (fmdrop k d))))"
proof -
  have a: "pos < length path \<longrightarrow> path ! pos \<noteq> CHR ''.'' \<longrightarrow> path_step current path pos = Step VNone p
      \<longrightarrow> walk current path pos = Inr VNone"
    by (simp add: walk.simps [of current path pos])
  have b: "extract_data_at_path (VDict (fmupd ''a'' VNone fmempty)) (Some ''a.b'') = Inr VNone"
    by (simp add: path_eval_defs)
  have "\<And>j. dict_get (fmupd k VNone d) j = dict_get (fmdrop k d) j"
    by (simp add: dict_get_def)
  from extract_agree [OF this, of q] a b show ?thesis by blast
qed

theorem null_short_circuit_witness:
  "path_step (VDict (fmupd ''a'' VNone fmempty)) ''a.b'' 0 = Step VNone 1
   \<and> walk (VDict (fmupd ''a'' VNone fmempty)) ''a.b'' 0 = Inr VNone"
proof -
  have h: "path_step (VDict (fmupd ''a'' VNone fmempty)) ''a.b'' 0 = Step VNone 1"
    by (simp add: path_eval_defs)
  from null_short_circuit [of 0 "''a.b''" "VDict (fmupd ''a'' VNone fmempty)" 1] h
  show ?thesis by simp
qed

section \<open>Properties of the value classification\<close>

text \<open>
  Claim C8 (boolean before number). For every boolean the classification is the
  boolean value type with an empty unit and an empty device class, and it is not the
  number value type, although a boolean passes the test \<open>isinstance(value, int | float)\<close>
  that selects numbers: the test for \<open>bool\<close> comes first.
\<close>

theorem boolean_before_number:
  "detect_value_type_and_suggestions (VBool b) =
     \<lparr>value_type = VALUE_TYPE_BOOLEAN, unit_of_measurement = [], device_class = []\<rparr>
   \<and> value_type (detect_value_type_and_suggestions (VBool b)) \<noteq> VALUE_TYPE_NUMBER
   \<and> isinstance_int_float (VBool b)"
  by (simp add: detect_value_type_and_suggestions_def)

theorem boolean_before_number_witness:
  "detect_value_type_and_suggestions (VBool True) =
     \<lparr>value_type = VALUE_TYPE_BOOLEAN, unit_of_measurement = [], device_class = []\<rparr>"
  using boolean_before_number [of True] by simp

text \<open>
  Claim C9 (totality). For every value and every path, absent, blank or malformed as
  it may be, \<open>extract_data_at_path\<close> returns a value (\<open>None\<close> for not found) and raises
  nothing: the loop ends, and the only operation of the function that can raise outside
  a handler, the list subscript, is reached within bounds only. The classification
  raises nothing either and falls back to the string value type without hints on
  \<open>None\<close>, on lists, on dictionaries and on strings that are no timestamp.
\<close>

theorem evaluation_and_classification_total:
  "(\<exists>v. extract_data_at_path data path = Inr v)
   \<and> detect_value_type_and_suggestions VNone =
       \<lparr>value_type = VALUE_TYPE_STRING, unit_of_measurement = [], device_class = []\<rparr>
   \<and> detect_value_type_and_suggestions (VList xs) =
       \<lparr>value_type = VALUE_TYPE_STRING, unit_of_measurement = [], device_class = []\<rparr>
   \<and> detect_value_type_and_suggestions (VDict d) =
       \<lparr>value_type = VALUE_TYPE_STRING, unit_of_measurement = [], device_class = []\<rparr>
   \<and> (\<not> match_classes iso_pattern s \<longrightarrow>
        detect_value_type_and_suggestions (VStr s) =
          \<lparr>value_type = VALUE_TYPE_STRING, unit_of_measurement = [], device_class = []\<rparr>)"
proof -
  have "\<exists>v. extract_data_at_path data path = Inr v"
    using walk_returns by (auto simp: extract_data_at_path_def split: option.splits)
  then show ?thesis by (simp add: detect_value_type_and_suggestions_def)
qed

theorem evaluation_and_classification_total_witness:
  "(\<exists>v. extract_data_at_path (VList [VInt 1]) (Some ''[5].x['') = Inr v)
   \<and> \<not> match_classes iso_pattern ''2024-01-15''
   \<and> detect_value_type_and_suggestions (VStr ''2024-01-15'') =
       \<lparr>value_type = VALUE_TYPE_STRING, unit_of_measurement = [], device_class = []\<rparr>"
proof -
  have h: "\<not> match_classes iso_pattern ''2024-01-15''"
    by (simp add: iso_pattern_def is_digit_def)
  from evaluation_and_classification_total [of "VList [VInt 1]" "Some ''[5].x[''" "[]" fmempty
      "''2024-01-15''"] h
  show ?thesis by simp
qed

section \<open>Properties of the service YAML functions\<close>

lemma strip_nonempty: "strip s \<noteq> [] \<Longrightarrow> s \<noteq> []"
  by (auto simp: strip_def)

lemma pop_entry_id_removes:
  "pop_entry_id c = (d, x) \<Longrightarrow> ''entry_id'' |\<notin>| fmdom d"
  by (auto simp: pop_entry_id_def fmdom_notI split: option.splits)

lemma split_parsed_removes:
  "split_parsed v = (Some d, a, x, err) \<Longrightarrow> ''entry_id'' |\<notin>| fmdom d"
  by (cases v)
    (auto simp: split_parsed_def Let_def split: if_splits py_value.splits prod.splits
      dest: pop_entry_id_removes)



text \<open>
  Claim C4 (reserved key) as stated fails in one point: the value found under
  \<open>entry_id\<close> is returned as it is, not as text. The document
  \<open>entry_id: 123\<close>, \<open>level: true\<close> loads to a dictionary that binds \<open>entry_id\<close> to
  the integer 123, and the integer 123 is what comes back, not the string \<open>"123"\<close>.
\<close>

theorem entry_id_not_coerced_counterexample:
  "entry_id (parse_service_yaml
      (\<lambda>s. Inr (VDict (fmupd ''entry_id'' (VInt 123) (fmupd ''level'' (VBool True) fmempty))))
      ''entry_id: 123\<newline>level: true'') = VInt 123
   \<and> entry_id (parse_service_yaml
      (\<lambda>s. Inr (VDict (fmupd ''entry_id'' (VInt 123) (fmupd ''level'' (VBool True) fmempty))))
      ''entry_id: 123\<newline>level: true'') \<noteq> VStr ''123''"
  by (simp add: parse_service_yaml_def split_parsed_def pop_entry_id_def entry_id_def
      strip_def isspace_def)

text \<open>
  Claim C4, amended. Whenever \<open>parse_service_yaml\<close> returns data, the data does not
  hold the key \<open>entry_id\<close>. A non-blank input that loads is split as follows. In the
  full-document form (a key \<open>action\<close> or \<open>service\<close> on top) with a dictionary \<open>c\<close>
  under \<open>data\<close>, and in the bare form with the top dictionary itself as \<open>c\<close>: if \<open>c\<close>
  binds \<open>entry_id\<close> to \<open>x\<close>, the data returned is \<open>c\<close> without that key and the entry
  id returned is \<open>x\<close> unchanged; if \<open>c\<close> does not hold the key, the data is \<open>c\<close> and the
  entry id is \<open>None\<close>.
\<close>

theorem reserved_key_removed:
  "(parse_service_yaml safe_load s = (Some d, a, x', err) \<longrightarrow> ''entry_id'' |\<notin>| fmdom d)
   \<and> (strip s \<noteq> [] \<longrightarrow> safe_load s = Inr v \<longrightarrow> parse_service_yaml safe_load s = split_parsed v)
   \<and> (''action'' |\<in>| fmdom m \<or> ''service'' |\<in>| fmdom m \<longrightarrow> fmlookup m ''data'' = Some (VDict c) \<longrightarrow>
        fmlookup c ''entry_id'' = Some x \<longrightarrow>
        split_parsed (VDict m) =
          (Some (fmdrop ''entry_id'' c), py_or (dict_get m ''action'') (dict_get m ''service''), x, None))
   \<and> (''action'' |\<in>| fmdom m \<or> ''service'' |\<in>| fmdom m \<longrightarrow> fmlookup m ''data'' = Some (VDict c) \<longrightarrow>
        fmlookup c ''entry_id'' = None \<longrightarrow>
        split_parsed (VDict m) =
          (Some c, py_or (dict_get m ''action'') (dict_get m ''service''), VNone, None))
   \<and> (''action'' |\<notin>| fmdom m \<longrightarrow> ''service'' |\<notin>| fmdom m \<longrightarrow> fmlookup m ''entry_id'' = Some x \<longrightarrow>
        split_parsed (VDict m) = (Some (fmdrop ''entry_id'' m), VNone, x, None))
   \<and> (''action'' |\<notin>| fmdom m \<longrightarrow> ''service'' |\<notin>| fmdom m \<longrightarrow> fmlookup m ''entry_id'' = None \<longrightarrow>
        split_parsed (VDict m) = (Some m, VNone, VNone, None))"
proof -
  have a: "parse_service_yaml safe_load s = (Some d, a, x', err) \<longrightarrow> ''entry_id'' |\<notin>| fmdom d"
    by (auto simp: parse_service_yaml_def split: if_splits sum.splits dest: split_parsed_removes)
  have b: "strip s \<noteq> [] \<longrightarrow> safe_load s = Inr v \<longrightarrow> parse_service_yaml safe_load s = split_parsed v"
    by (auto simp: parse_service_yaml_def dest: strip_nonempty)
  have c: "''action'' |\<in>| fmdom m \<or> ''service'' |\<in>| fmdom m \<longrightarrow> fmlookup m ''data'' = Some (VDict c) \<longrightarrow>
        fmlookup c ''entry_id'' = Some x \<longrightarrow>
        split_parsed (VDict m) =
          (Some (fmdrop ''entry_id'' c), py_or (dict_get m ''action'') (dict_get m ''service''), x, None)"
    by (simp add: split_parsed_def pop_entry_id_def)
  have d: "''action'' |\<in>| fmdom m \<or> ''service'' |\<in>| fmdom m \<longrightarrow> fmlookup m ''data'' = Some (VDict c) \<longrightarrow>
        fmlookup c ''entry_id'' = None \<longrightarrow>
        split_parsed (VDict m) =
          (Some c, py_or (dict_get m ''action'') (dict_get m ''service''), VNone, None)"
    by (simp add: split_parsed_def pop_entry_id_def)
  have e: "''action'' |\<notin>| fmdom m \<longrightarrow> ''service'' |\<notin>| fmdom m \<longrightarrow> fmlookup m ''entry_id'' = Some x \<longrightarrow>
        split_parsed (VDict m) = (Some (fmdrop ''entry_id'' m), VNone, x, None)"
    by (simp add: split_parsed_def pop_entry_id_def)
  have f: "''action'' |\<notin>| fmdom m \<longrightarrow> ''service'' |\<notin>| fmdom m \<longrightarrow> fmlookup m ''entry_id'' = None \<longrightarrow>
        split_parsed (VDict m) = (Some m, VNone, VNone, None)"
    by (simp add: split_parsed_def pop_entry_id_def)
  from a b c d e f show ?thesis by blast
qed

theorem reserved_key_removed_witness:
  "parse_service_yaml
     (\<lambda>s. Inr (VDict (fmupd ''action'' (VStr ''dom.svc'')
        (fmupd ''data'' (VDict (fmupd ''entry_id'' (VStr ''XYZ'') (fmupd ''level'' (VBool True) fmempty)))
           fmempty))))
     ''action: dom.svc\<newline>data:\<newline>  entry_id: XYZ\<newline>  level: true''
     = (Some (fmupd ''level'' (VBool True) fmempty), VStr ''dom.svc'', VStr ''XYZ'', None)
   \<and> ''entry_id'' |\<notin>| fmdom (fmupd ''level'' (VBool True) fmempty)
   \<and> split_parsed (VDict (fmupd ''level'' (VBool True) fmempty))
     = (Some (fmupd ''level'' (VBool True) fmempty), VNone, VNone, None)"
proof -
  let ?c = "fmupd ''entry_id'' (VStr ''XYZ'') (fmupd ''level'' (VBool True) fmempty)"
  let ?m = "fmupd ''action'' (VStr ''dom.svc'') (fmupd ''data'' (VDict ?c) fmempty)"
  let ?doc = "''action: dom.svc\<newline>data:\<newline>  entry_id: XYZ\<newline>  level: true''"
  let ?b = "fmupd ''level'' (VBool True) fmempty"
  have h1: "strip ?doc \<noteq> []" by (simp add: strip_def isspace_def)
  have h2: "''action'' |\<in>| fmdom ?m \<or> ''service'' |\<in>| fmdom ?m" by simp
  have h3: "fmlookup ?m ''data'' = Some (VDict ?c)" by simp
  have h4: "fmlookup ?c ''entry_id'' = Some (VStr ''XYZ'')" by simp
  have h5: "py_or (dict_get ?m ''action'') (dict_get ?m ''service'') = VStr ''dom.svc''"
    by (simp add: py_or_def dict_get_def)
  have h6: "fmdrop ''entry_id'' ?c = ?b" by (simp add: fmdrop_fmupd)
  note t = reserved_key_removed [where s = ?doc and safe_load = "\<lambda>s. Inr (VDict ?m)"
      and v = "VDict ?m" and m = ?m and c = ?c and x = "VStr ''XYZ''" and d = ?b
      and a = "VStr ''dom.svc''" and x' = "VStr ''XYZ''" and err = None]
  from t h1 h2 h3 h4 h5 h6
  have r: "parse_service_yaml (\<lambda>s. Inr (VDict ?m)) ?doc = (Some ?b, VStr ''dom.svc'', VStr ''XYZ'', None)"
    by simp
  with t have i: "''entry_id'' |\<notin>| fmdom ?b" by blast
  have b1: "''action'' |\<notin>| fmdom ?b" and b2: "''service'' |\<notin>| fmdom ?b"
    and b3: "fmlookup ?b ''entry_id'' = None"
    by simp_all
  from reserved_key_removed [where m = ?b] b1 b2 b3
  have j: "split_parsed (VDict ?b) = (Some ?b, VNone, VNone, None)" by blast
  from r i j show ?thesis by blast
qed

text \<open>
  Claim C7 (action preferred) as stated fails when the value under \<open>action\<close> is empty
  or otherwise false: \<open>parsed.get("action") or parsed.get("service")\<close> then yields the
  value under \<open>service\<close>. The document \<open>action: ""\<close>, \<open>service: dom.svc\<close> holds both
  keys, and the action returned is \<open>dom.svc\<close>, the value of \<open>service\<close>.
\<close>

theorem action_preferred_counterexample:
  \<open>action (parse_service_yaml
      (\<lambda>s. Inr (VDict (fmupd ''action'' (VStr []) (fmupd ''service'' (VStr ''dom.svc'') fmempty))))
      ''action: ""\<newline>service: dom.svc'') = VStr ''dom.svc''
   \<and> action (parse_service_yaml
      (\<lambda>s. Inr (VDict (fmupd ''action'' (VStr []) (fmupd ''service'' (VStr ''dom.svc'') fmempty))))
      ''action: ""\<newline>service: dom.svc'') \<noteq> VStr []\<close>
  by (simp add: parse_service_yaml_def split_parsed_def pop_entry_id_def action_def
      strip_def isspace_def py_or_def dict_get_def)

text \<open>
  Claim C7, amended. For every non-blank input that loads to a dictionary holding both
  the key \<open>action\<close> and the key \<open>service\<close>, the full-document form is taken (the data
  returned come from the \<open>data\<close> section, and are empty when there is none), and the
  action returned is the value of \<open>action\<close> when that value is true in the sense of
  Python (a non-empty string, for one), and the value of \<open>service\<close> otherwise.
\<close>

theorem action_preferred_when_true:
  assumes "strip s \<noteq> []"
    and "safe_load s = Inr (VDict m)"
    and "fmlookup m ''action'' = Some a"
    and "fmlookup m ''service'' = Some b"
  shows "action (parse_service_yaml safe_load s) = (if truthy a then a else b)
       \<and> (fmlookup m ''data'' = None \<longrightarrow>
            parse_service_yaml safe_load s = (Some fmempty, (if truthy a then a else b), VNone, None))"
proof -
  from assms(1) have ne: "s \<noteq> []" by (rule strip_nonempty)
  from assms(3) have full: "''action'' |\<in>| fmdom m" by (rule fmdomI)
  have p: "parse_service_yaml safe_load s = split_parsed (VDict m)"
    using assms(1,2) ne by (simp add: parse_service_yaml_def)
  have g: "py_or (dict_get m ''action'') (dict_get m ''service'') = (if truthy a then a else b)"
    using assms(3,4) by (simp add: py_or_def dict_get_def)
  have x: "action (split_parsed (VDict m)) = (if truthy a then a else b)"
    using full g
    by (auto simp: split_parsed_def Let_def action_def split: option.splits py_value.splits prod.splits)
  have y: "fmlookup m ''data'' = None \<longrightarrow>
      split_parsed (VDict m) = (Some fmempty, (if truthy a then a else b), VNone, None)"
    using full g by (simp add: split_parsed_def pop_entry_id_def)
  from p x y show ?thesis by simp
qed

theorem action_preferred_when_true_witness:
  "parse_service_yaml
     (\<lambda>s. Inr (VDict (fmupd ''action'' (VStr ''a.b'') (fmupd ''service'' (VStr ''c.d'') fmempty))))
     ''action: a.b\<newline>service: c.d''
   = (Some fmempty, VStr ''a.b'', VNone, None)"
proof -
  let ?m = "fmupd ''action'' (VStr ''a.b'') (fmupd ''service'' (VStr ''c.d'') fmempty)"
  have h1: "strip ''action: a.b\<newline>service: c.d'' \<noteq> []" by (simp add: strip_def isspace_def)
  have h2: "(\<lambda>s. Inr (VDict ?m)) ''action: a.b\<newline>service: c.d'' = (Inr (VDict ?m) :: yaml_error + py_value)"
    by simp
  have h3: "fmlookup ?m ''action'' = Some (VStr ''a.b'')" by simp
  have h4: "fmlookup ?m ''service'' = Some (VStr ''c.d'')" by simp
  have h5: "fmlookup ?m ''data'' = None" by simp
  from action_preferred_when_true [OF h1 h2 h3 h4] h5 show ?thesis by simp
qed

text \<open>
  Claim C10 (validator and parser agree) as stated fails in one direction: the
  validator looks at the top-level value only, while the parser also rejects a
  full-document form whose \<open>data\<close> section is no dictionary. The document
  \<open>action: dom.svc\<close>, \<open>data: 5\<close> is valid for \<open>validate_service_yaml\<close>, and
  \<open>parse_service_yaml\<close> returns the error key \<open>yaml_not_dict\<close> on it.
\<close>

theorem validator_parser_agreement_counterexample:
  "validate_service_yaml
     (\<lambda>s. Inr (VDict (fmupd ''action'' (VStr ''dom.svc'') (fmupd ''data'' (VInt 5) fmempty))))
     ''action: dom.svc\<newline>data: 5'' = (True, None)
   \<and> error_key (parse_service_yaml
     (\<lambda>s. Inr (VDict (fmupd ''action'' (VStr ''dom.svc'') (fmupd ''data'' (VInt 5) fmempty))))
     ''action: dom.svc\<newline>data: 5'') = Some ''yaml_not_dict''"
  by (simp add: validate_service_yaml_def parse_service_yaml_def split_parsed_def error_key_def
      strip_def isspace_def)

text \<open>
  Claim C10, amended. For every input: if \<open>parse_service_yaml\<close> returns no error key,
  \<open>validate_service_yaml\<close> returns \<open>(True, None)\<close>; if \<open>validate_service_yaml\<close> reports
  an error, its key is \<open>yaml_parse_error\<close> or \<open>yaml_not_dict\<close> and
  \<open>parse_service_yaml\<close> returns the same key; and the two differ only on an input that
  loads to a dictionary holding \<open>action\<close> or \<open>service\<close> whose \<open>data\<close> entry is not a
  dictionary, where the parser alone reports \<open>yaml_not_dict\<close>.
\<close>

theorem validator_parser_agreement:
  "(error_key (parse_service_yaml safe_load s) = None \<longrightarrow>
      validate_service_yaml safe_load s = (True, None))
   \<and> (validate_service_yaml safe_load s = (False, k) \<longrightarrow>
      error_key (parse_service_yaml safe_load s) = k
      \<and> (k = Some ''yaml_parse_error'' \<or> k = Some ''yaml_not_dict''))
   \<and> (validate_service_yaml safe_load s = (True, None) \<longrightarrow>
      error_key (parse_service_yaml safe_load s) \<noteq> None \<longrightarrow>
      error_key (parse_service_yaml safe_load s) = Some ''yaml_not_dict''
      \<and> (\<exists>m v. safe_load s = Inr (VDict m)
            \<and> (''action'' |\<in>| fmdom m \<or> ''service'' |\<in>| fmdom m)
            \<and> fmlookup m ''data'' = Some v \<and> \<not> isinstance_dict v))"
proof (cases "s = [] \<or> strip s = []")
  case True
  then show ?thesis
    by (auto simp: validate_service_yaml_def parse_service_yaml_def error_key_def)
next
  case nb: False
  show ?thesis
  proof (cases "safe_load s")
    case (Inl e)
    with nb show ?thesis
      by (auto simp: validate_service_yaml_def parse_service_yaml_def error_key_def)
  next
    case (Inr parsed)
    have v: "validate_service_yaml safe_load s =
        (if parsed \<noteq> VNone \<and> \<not> isinstance_dict parsed then (False, Some ''yaml_not_dict'')
         else (True, None))"
      using nb Inr by (simp add: validate_service_yaml_def)
    have p: "parse_service_yaml safe_load s = split_parsed parsed"
      using nb Inr by (simp add: parse_service_yaml_def)
    show ?thesis
    proof (cases parsed)
      case (VDict m)
      have e: "error_key (split_parsed (VDict m)) = None
          \<or> (error_key (split_parsed (VDict m)) = Some ''yaml_not_dict''
             \<and> (''action'' |\<in>| fmdom m \<or> ''service'' |\<in>| fmdom m)
             \<and> (\<exists>v. fmlookup m ''data'' = Some v \<and> \<not> isinstance_dict v))"
        by (auto simp: split_parsed_def Let_def error_key_def
            split: option.splits py_value.splits prod.splits)
      from e v p VDict Inr show ?thesis by auto
    qed (use v p in \<open>simp_all add: split_parsed_def error_key_def\<close>)
  qed
qed

theorem validator_parser_agreement_witness:
  "validate_service_yaml (\<lambda>s. Inr (VList [VInt 1, VInt 2])) ''- 1\<newline>- 2'' =
     (False, Some ''yaml_not_dict'')
   \<and> error_key (parse_service_yaml (\<lambda>s. Inr (VList [VInt 1, VInt 2])) ''- 1\<newline>- 2'') =
     Some ''yaml_not_dict''
   \<and> error_key (parse_service_yaml (\<lambda>s. Inr (VDict (fmupd ''level'' (VBool True) fmempty)))
       ''level: true'') = None
   \<and> validate_service_yaml (\<lambda>s. Inr (VDict (fmupd ''level'' (VBool True) fmempty)))
       ''level: true'' = (True, None)"
proof -
  have h1: "validate_service_yaml (\<lambda>s. Inr (VList [VInt 1, VInt 2])) ''- 1\<newline>- 2'' =
      (False, Some ''yaml_not_dict'')"
    by (simp add: validate_service_yaml_def strip_def isspace_def)
  have h2: "error_key (parse_service_yaml (\<lambda>s. Inr (VDict (fmupd ''level'' (VBool True) fmempty)))
      ''level: true'') = None"
    by (simp add: parse_service_yaml_def split_parsed_def pop_entry_id_def error_key_def
        strip_def isspace_def)
  from validator_parser_agreement [of "\<lambda>s. Inr (VList [VInt 1, VInt 2])" "''- 1\<newline>- 2''"
      "Some ''yaml_not_dict''"] h1
  have a: "error_key (parse_service_yaml (\<lambda>s. Inr (VList [VInt 1, VInt 2])) ''- 1\<newline>- 2'') =
      Some ''yaml_not_dict''"
    by blast
  from validator_parser_agreement [of "\<lambda>s. Inr (VDict (fmupd ''level'' (VBool True) fmempty))"
      "''level: true''"] h2
  have b: "validate_service_yaml (\<lambda>s. Inr (VDict (fmupd ''level'' (VBool True) fmempty)))
      ''level: true'' = (True, None)"
    by blast
  from h1 a h2 b show ?thesis by blast
qed




section \<open>Properties of the action selector\<close>

lemma split_dot_parts:
  "CHR ''.'' \<in> set s \<Longrightarrow>
   split_dot s = [takeWhile (\<lambda>c. c \<noteq> CHR ''.'') s, tl (dropWhile (\<lambda>c. c \<noteq> CHR ''.'') s)]"
proof -
  assume "CHR ''.'' \<in> set s"
  then have "dropWhile (\<lambda>c. c \<noteq> CHR ''.'') s \<noteq> []" by (auto simp: dropWhile_eq_Nil_conv)
  then show ?thesis by (cases "dropWhile (\<lambda>c. c \<noteq> CHR ''.'') s") (auto simp: split_dot_def)
qed

lemma split_dot_joins:
  "CHR ''.'' \<in> set s \<Longrightarrow>
   s = takeWhile (\<lambda>c. c \<noteq> CHR ''.'') s @ ''.'' @ tl (dropWhile (\<lambda>c. c \<noteq> CHR ''.'') s)"
proof -
  assume "CHR ''.'' \<in> set s"
  then have ne: "dropWhile (\<lambda>c. c \<noteq> CHR ''.'') s \<noteq> []" by (auto simp: dropWhile_eq_Nil_conv)
  then have "hd (dropWhile (\<lambda>c. c \<noteq> CHR ''.'') s) = CHR ''.''"
    using hd_dropWhile [of "\<lambda>c. c \<noteq> CHR ''.''" s] by simp
  with ne have "dropWhile (\<lambda>c. c \<noteq> CHR ''.'') s = ''.'' @ tl (dropWhile (\<lambda>c. c \<noteq> CHR ''.'') s)"
    by (cases "dropWhile (\<lambda>c. c \<noteq> CHR ''.'') s") auto
  with takeWhile_dropWhile_id [of "\<lambda>c. c \<noteq> CHR ''.''" s] show ?thesis by metis
qed

text \<open>
  Claim C2 (splitting an action identifier) as stated fails for an identifier with an
  empty side: the function tests only that a dot occurs. For \<open>.svc\<close> it returns the
  pair of the empty string and \<open>svc\<close>, and for \<open>dom.\<close> the pair of \<open>dom\<close> and the empty
  string, not \<open>None\<close>.
\<close>

theorem empty_side_counterexample:
  "extract_action_from_selector (Some (fmupd ''action'' (VStr ''.svc'') fmempty))
     = Inr (Some ([], ''svc''))
   \<and> extract_action_from_selector (Some (fmupd ''action'' (VStr ''dom.'') fmempty))
     = Inr (Some (''dom'', []))"
  by (simp add: extract_action_from_selector_def split_dot_def getitem_def)

text \<open>
  Claim C2, amended. For every selector dictionary whose \<open>action\<close> is a string \<open>s\<close>:
  if \<open>s\<close> holds a dot, the function returns the pair of the text before the first dot
  and the text after it (either of which may be empty), the first component holding
  no dot; if \<open>s\<close> holds no dot, it returns \<open>None\<close>. It returns \<open>None\<close> as well for an
  absent or empty selector dictionary. No error is raised in any of these cases.
\<close>

theorem splits_on_first_dot:
  assumes "fmlookup d ''action'' = Some (VStr s)"
  shows "(CHR ''.'' \<in> set s \<longrightarrow>
            (\<exists>domain name. extract_action_from_selector (Some d) = Inr (Some (domain, name))
               \<and> s = domain @ ''.'' @ name \<and> CHR ''.'' \<notin> set domain))
       \<and> (CHR ''.'' \<notin> set s \<longrightarrow> extract_action_from_selector (Some d) = Inr None)
       \<and> extract_action_from_selector None = Inr None
       \<and> extract_action_from_selector (Some fmempty) = Inr None"
proof -
  from assms have ne: "d \<noteq> fmempty" by auto
  have a: "CHR ''.'' \<in> set s \<longrightarrow>
      (\<exists>domain name. extract_action_from_selector (Some d) = Inr (Some (domain, name))
         \<and> s = domain @ ''.'' @ name \<and> CHR ''.'' \<notin> set domain)"
  proof
    assume dot: "CHR ''.'' \<in> set s"
    then have s: "s \<noteq> []" by auto
    let ?dom = "takeWhile (\<lambda>c. c \<noteq> CHR ''.'') s"
    let ?name = "tl (dropWhile (\<lambda>c. c \<noteq> CHR ''.'') s)"
    have r: "extract_action_from_selector (Some d) = Inr (Some (?dom, ?name))"
      using assms ne s dot
      by (simp add: extract_action_from_selector_def split_dot_parts getitem_def)
    have "CHR ''.'' \<notin> set ?dom" by (auto dest: set_takeWhileD)
    with r split_dot_joins [OF dot] show
      "\<exists>domain name. extract_action_from_selector (Some d) = Inr (Some (domain, name))
         \<and> s = domain @ ''.'' @ name \<and> CHR ''.'' \<notin> set domain"
      by blast
  qed
  have b: "CHR ''.'' \<notin> set s \<longrightarrow> extract_action_from_selector (Some d) = Inr None"
    using assms ne by (simp add: extract_action_from_selector_def Let_def)
  have c: "extract_action_from_selector None = Inr None"
    and e: "extract_action_from_selector (Some fmempty) = Inr None"
    by (simp_all add: extract_action_from_selector_def)
  from a b c e show ?thesis by blast
qed

theorem splits_on_first_dot_witness:
  "extract_action_from_selector (Some (fmupd ''action'' (VStr ''a.b.c'') fmempty))
     = Inr (Some (''a'', ''b.c''))
   \<and> extract_action_from_selector (Some (fmupd ''action'' (VStr ''abc'') fmempty)) = Inr None"
proof -
  have h1: "fmlookup (fmupd ''action'' (VStr ''a.b.c'') fmempty) ''action'' = Some (VStr ''a.b.c'')"
    by simp
  have h2: "fmlookup (fmupd ''action'' (VStr ''abc'') fmempty) ''action'' = Some (VStr ''abc'')"
    by simp
  have d1: "CHR ''.'' \<in> set ''a.b.c''" and d2: "CHR ''.'' \<notin> set ''abc''" by simp_all
  from splits_on_first_dot [OF h1] d1 obtain domain name where
    r: "extract_action_from_selector (Some (fmupd ''action'' (VStr ''a.b.c'') fmempty))
        = Inr (Some (domain, name))"
    by blast
  have "extract_action_from_selector (Some (fmupd ''action'' (VStr ''a.b.c'') fmempty))
      = Inr (Some (''a'', ''b.c''))"
    by (simp add: extract_action_from_selector_def split_dot_def getitem_def)
  moreover from splits_on_first_dot [OF h2] d2
  have "extract_action_from_selector (Some (fmupd ''action'' (VStr ''abc'') fmempty)) = Inr None"
    by blast
  ultimately show ?thesis using r by simp
qed

end
